theory Spec2Isabelle
  imports Main "HOL-Library.Word"
begin

section \<open>Python values and built-ins used by the streaming endpoint\<close>

text \<open>
  The development embeds the range-request responder of \<^verbatim>\<open>src/web.py\<close>:
  \<^verbatim>\<open>partial_response\<close>, \<^verbatim>\<open>full_response\<close>, \<^verbatim>\<open>load_json_file\<close>,
  \<^verbatim>\<open>save_json_file\<close> and the route handler \<^verbatim>\<open>stream_video\<close>
  (the same text is repeated in \<^verbatim>\<open>src/web_iterations/iter_5.py\<close> and
  \<^verbatim>\<open>iter_8.py\<close>). Python integers are \<^typ>\<open>int\<close>, \<^verbatim>\<open>str\<close> is
  \<^typ>\<open>string\<close>, \<^verbatim>\<open>bytes\<close> is a list of 8-bit words, an exception is a value
  of \<open>py_error\<close> on the left of a sum.
\<close>

type_synonym byte = "8 word"

datatype py_error = ValueError | OSError

subsection \<open>\<^verbatim>\<open>str(int)\<close>, as used by the f-strings of the headers\<close>

definition digit_char :: "nat \<Rightarrow> char" where
  "digit_char d = ''0123456789'' ! d"

fun str_nat :: "nat \<Rightarrow> string" where
  "str_nat n = (if n < 10 then [digit_char n] else str_nat (n div 10) @ [digit_char (n mod 10)])"

declare str_nat.simps [simp del]

definition str_int :: "int \<Rightarrow> string" where
  "str_int i = (if i < 0 then CHR ''-'' # str_nat (nat (- i)) else str_nat (nat i))"

subsection \<open>\<^verbatim>\<open>int(str)\<close>\<close>

text \<open>
  \<^verbatim>\<open>int(s)\<close> on a header string (characters below 256): white space is stripped at both
  ends (tab, LF, VT, FF, CR, space, NEL, NBSP), one sign is allowed, then decimal digits
  with single underscores between digits. Anything else raises \<^verbatim>\<open>ValueError\<close>.
  The interpreter's limit on the number of digits of a literal is not modelled.
\<close>

definition is_space :: "char \<Rightarrow> bool" where
  "is_space c = ((of_char c :: nat) \<in> {9, 10, 11, 12, 13, 32, 133, 160})"

definition is_digit :: "char \<Rightarrow> bool" where
  "is_digit c = (48 \<le> (of_char c :: nat) \<and> (of_char c :: nat) \<le> 57)"

definition strip :: "string \<Rightarrow> string" where
  "strip s = rev (dropWhile is_space (rev (dropWhile is_space s)))"

fun digits_value :: "int \<Rightarrow> string \<Rightarrow> int option" where
  "digits_value acc [] = Some acc"
| "digits_value acc (c # cs) =
     (if is_digit c then digits_value (10 * acc + int (of_char c - 48)) cs
      else if c = CHR ''_'' \<and> cs \<noteq> [] \<and> is_digit (hd cs) then digits_value acc cs
      else None)"

definition unsigned_value :: "string \<Rightarrow> py_error + int" where
  "unsigned_value u =
     (case u of
        [] \<Rightarrow> Inl ValueError
      | c # _ \<Rightarrow>
          if is_digit c
          then (case digits_value 0 u of None \<Rightarrow> Inl ValueError | Some v \<Rightarrow> Inr v)
          else Inl ValueError)"

definition py_int :: "string \<Rightarrow> py_error + int" where
  "py_int s =
     (case strip s of
        [] \<Rightarrow> Inl ValueError
      | c # r \<Rightarrow>
          if c = CHR ''-'' then map_sum id uminus (unsigned_value r)
          else if c = CHR ''+'' then unsigned_value r
          else unsigned_value (c # r))"

subsection \<open>\<^verbatim>\<open>str.replace(old, '')\<close> and \<^verbatim>\<open>str.split(sep)\<close>\<close>

function str_remove :: "string \<Rightarrow> string \<Rightarrow> string" where
  "str_remove old [] = []"
| "str_remove old (c # cs) =
     (if old \<noteq> [] \<and> take (length old) (c # cs) = old
      then str_remove old (drop (length old) (c # cs))
      else c # str_remove old cs)"
  by pat_completeness auto
termination
  by (relation "measure (\<lambda>(old, s). length s)") auto

fun split :: "char \<Rightarrow> string \<Rightarrow> string list" where
  "split sep [] = [[]]"
| "split sep (c # cs) =
     (if c = sep then [] # split sep cs
      else (case split sep cs of [] \<Rightarrow> [[c]] | p # ps \<Rightarrow> (c # p) # ps))"

section \<open>Binary file handles\<close>

text \<open>
  A handle returned by \<^verbatim>\<open>open(path, 'rb')\<close>: the bytes of the file, the cursor and
  whether \<^verbatim>\<open>close()\<close> has been called. \<^verbatim>\<open>seek\<close> to a negative offset raises
  \<^verbatim>\<open>OSError\<close>; \<^verbatim>\<open>read(n)\<close> raises \<^verbatim>\<open>ValueError\<close> for \<open>n < -1\<close> and on a
  closed handle, reads to the end of the file for \<open>n = -1\<close>, and otherwise returns at most
  \<open>n\<close> bytes, fewer only at the end of the file.
\<close>

record file_handle =
  content :: "byte list"
  cursor :: nat
  closed :: bool

definition open_rb :: "byte list \<Rightarrow> file_handle" where
  "open_rb bs = \<lparr>content = bs, cursor = 0, closed = False\<rparr>"

definition seek :: "file_handle \<Rightarrow> int \<Rightarrow> py_error + file_handle" where
  "seek f offset =
     (if closed f then Inl ValueError
      else if offset < 0 then Inl OSError
      else Inr (f\<lparr>cursor := nat offset\<rparr>))"

definition read :: "file_handle \<Rightarrow> int \<Rightarrow> py_error + (byte list \<times> file_handle)" where
  "read f n =
     (if n < - 1 then Inl ValueError
      else if closed f then Inl ValueError
      else (let avail = drop (cursor f) (content f);
                data = (if n = - 1 then avail else take (nat n) avail)
            in Inr (data, f\<lparr>cursor := cursor f + length data\<rparr>)))"

section \<open>Chunked body production\<close>

text \<open>
  The loop shared by both generators:
  \<^verbatim>\<open>
  while remaining:
      chunk = min(chunk_size, remaining)
      data = file.read(chunk)
      if not data:
          break
      remaining -= len(data)
      yield data
  \<close>
  The result is the list of chunks yielded, the exception that ended the generator
  (if any) and the handle as the generator leaves it.
\<close>

type_synonym produced = "byte list list \<times> py_error option \<times> file_handle"

function generate_loop :: "int \<Rightarrow> file_handle \<Rightarrow> int \<Rightarrow> produced" where
  "generate_loop chunk_size f remaining =
     (if remaining = 0 then ([], None, f)
      else (case read f (min chunk_size remaining) of
              Inl e \<Rightarrow> ([], Some e, f)
            | Inr (data, f') \<Rightarrow>
                if data = [] then ([], None, f')
                else (case generate_loop chunk_size f' (remaining - int (length data)) of
                        (chunks, raised, f'') \<Rightarrow> (data # chunks, raised, f''))))"
  by pat_completeness auto
termination
  by (relation "measure (\<lambda>(chunk_size, f, remaining). length (content f) - cursor f)")
     (auto simp: read_def Let_def split: if_splits)

declare generate_loop.simps [simp del]

text \<open>
  The same loop when the consumer takes at most \<open>k\<close> chunks and then closes the
  generator (a client that disconnects): the generator has no \<^verbatim>\<open>finally\<close> and no
  \<^verbatim>\<open>with\<close> block, so closing it does nothing more to the handle.
\<close>

fun generate_upto :: "nat \<Rightarrow> int \<Rightarrow> file_handle \<Rightarrow> int \<Rightarrow> produced" where
  "generate_upto 0 chunk_size f remaining = ([], None, f)"
| "generate_upto (Suc k) chunk_size f remaining =
     (if remaining = 0 then ([], None, f)
      else (case read f (min chunk_size remaining) of
              Inl e \<Rightarrow> ([], Some e, f)
            | Inr (data, f') \<Rightarrow>
                if data = [] then ([], None, f')
                else (case generate_upto k chunk_size f' (remaining - int (length data)) of
                        (chunks, raised, f'') \<Rightarrow> (data # chunks, raised, f''))))"

definition chunks :: "produced \<Rightarrow> byte list list" where
  "chunks p = fst p"

definition raised :: "produced \<Rightarrow> py_error option" where
  "raised p = fst (snd p)"

definition handle :: "produced \<Rightarrow> file_handle" where
  "handle p = snd (snd p)"

text \<open>
  The two nested \<^verbatim>\<open>generate\<close> functions, as the closures they are when the response is
  built: nothing is read before the framework iterates the body. The parameters \<open>stop\<close>
  and \<open>total'\<close> are the source's \<^verbatim>\<open>end\<close> and \<^verbatim>\<open>total\<close>. \<open>exhaust\<close> iterates a
  generator to its end; \<open>consume k\<close> takes at most \<open>k\<close> chunks and closes it.
\<close>

datatype generator =
    Partial_generate file_handle int int int
  | Full_generate file_handle int int

fun exhaust :: "generator \<Rightarrow> produced" where
  "exhaust (Partial_generate f start stop chunk_size) =
     (case seek f start of
        Inl e \<Rightarrow> ([], Some e, f)
      | Inr f' \<Rightarrow> generate_loop chunk_size f' (stop - start + 1))"
| "exhaust (Full_generate f total' chunk_size) = generate_loop chunk_size f total'"


section \<open>Responses\<close>

definition CHUNK_SIZE :: int where
  "CHUNK_SIZE = 1024 * 1024"

definition MAX_CACHE_AGE :: int where
  "MAX_CACHE_AGE = 86400"

datatype header_value = Str string | Num int

datatype payload = Message string | Exception py_error

datatype response =
    Response (body: generator) (status: nat) (headers: "(string \<times> header_value) list")
  | Json (error: payload) (status: nat)

definition partial_response :: "file_handle \<Rightarrow> int \<Rightarrow> int \<Rightarrow> int \<Rightarrow> int \<Rightarrow> string \<Rightarrow> response" where
  "partial_response f start stop total' chunk_size mime_type =
     Response (Partial_generate f start stop chunk_size) 206
       [(''Content-Type'', Str mime_type),
        (''Accept-Ranges'', Str ''bytes''),
        (''Content-Range'', Str (''bytes '' @ str_int start @ ''-'' @ str_int stop @ ''/'' @ str_int total')),
        (''Content-Length'', Num (stop - start + 1)),
        (''Cache-Control'', Str (''public, max-age='' @ str_int MAX_CACHE_AGE))]"

definition full_response :: "file_handle \<Rightarrow> int \<Rightarrow> int \<Rightarrow> string \<Rightarrow> response" where
  "full_response f total' chunk_size mime_type =
     Response (Full_generate f total' chunk_size) 200
       [(''Content-Type'', Str mime_type),
        (''Accept-Ranges'', Str ''bytes''),
        (''Content-Length'', Num total'),
        (''Cache-Control'', Str (''public, max-age='' @ str_int MAX_CACHE_AGE))]"

definition header :: "response \<Rightarrow> string \<Rightarrow> header_value option" where
  "header r name = map_of (headers r) name"

section \<open>JSON-backed stores\<close>

text \<open>
  A store file on disk is missing, unparsable, or holds a JSON object. Writing it can
  succeed, fail when the file is opened (nothing changes) or fail while the object is
  dumped (the file, already truncated by \<^verbatim>\<open>open(filename, 'w')\<close>, is left unparsable).
  Both functions catch every exception and log it. \<^verbatim>\<open>load_json_file\<close> is always
  called with a default, so its replacement of a missing default by \<^verbatim>\<open>{}\<close> does not
  arise.
\<close>

datatype 'a json_file = Absent | Corrupt | Stored 'a

datatype write_outcome = Written | OpenFailed | DumpFailed

definition load_json_file :: "'a json_file \<Rightarrow> 'a \<Rightarrow> 'a" where
  "load_json_file file default' =
     (case file of Stored data \<Rightarrow> data | Absent \<Rightarrow> default' | Corrupt \<Rightarrow> default')"

definition save_json_file :: "write_outcome \<Rightarrow> 'a json_file \<Rightarrow> 'a \<Rightarrow> 'a json_file" where
  "save_json_file io file data =
     (case io of Written \<Rightarrow> Stored data | OpenFailed \<Rightarrow> file | DumpFailed \<Rightarrow> Corrupt)"

section \<open>The route handler\<close>

text \<open>
  The state the handler can touch: the regular, readable files below \<^verbatim>\<open>VIDEO_DIR\<close>
  (for these \<^verbatim>\<open>os.stat\<close> and \<^verbatim>\<open>open\<close> succeed), the three store files and the
  in-memory duration cache. A request carries the \<^verbatim>\<open>Range\<close> header and what the
  environment answers during the request: the clock, the outcome of the history write,
  the duration found by the external prober (\<open>None\<close> when probing raises) and the MIME
  type guessed from the file name.
\<close>

record server =
  files :: "string \<rightharpoonup> byte list"
  watch_history :: "(string \<rightharpoonup> string) json_file"
  comments :: "(string \<rightharpoonup> string list) json_file"
  playlists :: "(string \<rightharpoonup> string list) json_file"
  duration_cache :: "string \<rightharpoonup> string"

record request =
  Range_header :: "string option"
  now :: string
  history_write :: write_outcome
  probed_duration :: "string option"
  guessed_type :: "string option"

definition get_video_duration :: "(string \<rightharpoonup> string) \<Rightarrow> string option \<Rightarrow> string \<Rightarrow> (string \<rightharpoonup> string) \<times> string" where
  "get_video_duration cache probed cache_key =
     (case cache cache_key of
        Some d \<Rightarrow> (cache, d)
      | None \<Rightarrow>
          (case probed of
             None \<Rightarrow> (cache, ''Unknown'')
           | Some d \<Rightarrow> (cache(cache_key \<mapsto> d), d)))"

definition mime_type_of :: "string option \<Rightarrow> string" where
  "mime_type_of guessed =
     (case guessed of None \<Rightarrow> ''video/mp4'' | Some m \<Rightarrow> if m = [] then ''video/mp4'' else m)"

text \<open>
  Lines 416 to 418 of \<^verbatim>\<open>stream_video\<close>:
  \<^verbatim>\<open>
  byte_start, byte_end = range_header.replace('bytes=', '').split('-')
  byte_start = int(byte_start)
  byte_end = min(int(byte_end) if byte_end else total_size - 1, total_size - 1)
  \<close>
  Unpacking anything but two parts raises \<^verbatim>\<open>ValueError\<close>.
\<close>

definition range_bounds :: "string \<Rightarrow> int \<Rightarrow> py_error + (int \<times> int)" where
  "range_bounds range_header total_size =
     (case split CHR ''-'' (str_remove ''bytes='' range_header) of
        [byte_start, byte_end] \<Rightarrow>
          (case py_int byte_start of
             Inl e \<Rightarrow> Inl e
           | Inr byte_start' \<Rightarrow>
               (case (if byte_end \<noteq> [] then py_int byte_end else Inr (total_size - 1)) of
                  Inl e \<Rightarrow> Inl e
                | Inr byte_end' \<Rightarrow> Inr (byte_start', min byte_end' (total_size - 1))))
      | _ \<Rightarrow> Inl ValueError)"

record outcome =
  state :: server
  reply :: response
  opened :: "file_handle option"

definition stream_video :: "server \<Rightarrow> request \<Rightarrow> string \<Rightarrow> outcome" where
  "stream_video s rq filename =
     (case files s filename of
        None \<Rightarrow> \<lparr>state = s, reply = Json (Message ''Video not found'') 404, opened = None\<rparr>
      | Some bytes \<Rightarrow>
          (let history = load_json_file (watch_history s) Map.empty;
               history = history(filename \<mapsto> now rq);
               s = s\<lparr>watch_history := save_json_file (history_write rq) (watch_history s) history\<rparr>;
               (cache, duration) = get_video_duration (duration_cache s) (probed_duration rq) filename;
               s = s\<lparr>duration_cache := cache\<rparr>;
               total_size = int (length bytes);
               mime_type = mime_type_of (guessed_type rq);
               file = open_rb bytes
           in (case Range_header rq of
                 None \<Rightarrow>
                   \<lparr>state = s, reply = full_response file total_size CHUNK_SIZE mime_type,
                    opened = Some file\<rparr>
               | Some h \<Rightarrow>
                   if h = []
                   then \<lparr>state = s, reply = full_response file total_size CHUNK_SIZE mime_type,
                         opened = Some file\<rparr>
                   else (case range_bounds h total_size of
                           Inl e \<Rightarrow> \<lparr>state = s, reply = Json (Exception e) 500, opened = Some file\<rparr>
                         | Inr (byte_start, byte_end) \<Rightarrow>
                             \<lparr>state = s,
                              reply = partial_response file byte_start byte_end total_size CHUNK_SIZE mime_type,
                              opened = Some file\<rparr>))))"

section \<open>Example inputs\<close>

text \<open>
  A server whose only video is \<^verbatim>\<open>a.mp4\<close> with the given bytes and empty stores, and a
  request with the given \<^verbatim>\<open>Range\<close> header whose history write succeeds.
\<close>

definition example_server :: "byte list \<Rightarrow> server" where
  "example_server bytes =
     \<lparr>files = [''a.mp4'' \<mapsto> bytes], watch_history = Absent, comments = Absent,
      playlists = Absent, duration_cache = Map.empty\<rparr>"

definition example_request :: "string option \<Rightarrow> request" where
  "example_request h =
     \<lparr>Range_header = h, now = ''2024-05-01T10:00:00'', history_write = Written,
      probed_duration = None, guessed_type = Some ''video/mp4''\<rparr>"

section \<open>Properties of the chunk loop\<close>

lemma take_take_rest:
  assumes "m \<le> n"
  shows "take m xs @ take (n - length (take m xs)) (drop (length (take m xs)) xs) = take n xs"
proof (cases "m \<le> length xs")
  case True
  then have "length (take m xs) = m" by simp
  moreover have "take m xs @ take (n - m) (drop m xs) = take (m + (n - m)) xs"
    by (simp only: take_add)
  ultimately show ?thesis using assms by simp
next
  case False
  then show ?thesis using assms by simp
qed

lemma take_eq_Nil_pos: "0 < m \<Longrightarrow> take m xs = [] \<Longrightarrow> xs = []"
  by (cases xs) auto

lemma read_open:
  "\<not> closed f \<Longrightarrow> 0 \<le> n \<Longrightarrow>
   read f n = Inr (take (nat n) (drop (cursor f) (content f)),
                   f\<lparr>cursor := cursor f + length (take (nat n) (drop (cursor f) (content f)))\<rparr>)"
  by (simp add: read_def Let_def)

lemma generate_loop_stop:
  "generate_loop chunk_size f 0 = ([], None, f)"
  by (simp add: generate_loop.simps)

lemma generate_loop_eof:
  "remaining \<noteq> 0 \<Longrightarrow> read f (min chunk_size remaining) = Inr ([], f') \<Longrightarrow>
   generate_loop chunk_size f remaining = ([], None, f')"
  by (simp add: generate_loop.simps[of chunk_size f remaining])

lemma generate_loop_raise:
  "remaining \<noteq> 0 \<Longrightarrow> read f (min chunk_size remaining) = Inl e \<Longrightarrow>
   generate_loop chunk_size f remaining = ([], Some e, f)"
  by (simp add: generate_loop.simps[of chunk_size f remaining])

lemma generate_loop_yield:
  "remaining \<noteq> 0 \<Longrightarrow> read f (min chunk_size remaining) = Inr (data, f') \<Longrightarrow> data \<noteq> [] \<Longrightarrow>
   generate_loop chunk_size f remaining =
     (data # chunks (generate_loop chunk_size f' (remaining - int (length data))),
      raised (generate_loop chunk_size f' (remaining - int (length data))),
      handle (generate_loop chunk_size f' (remaining - int (length data))))"
  by (simp add: generate_loop.simps[of chunk_size f remaining] chunks_def raised_def handle_def
           split: prod.splits)


lemma generate_loop_spec:
  "\<not> closed f \<Longrightarrow> 1 \<le> chunk_size \<Longrightarrow> 0 \<le> remaining \<Longrightarrow>
   generate_loop chunk_size f remaining = (cs, r, f') \<Longrightarrow>
   r = None \<and>
   concat cs = take (nat remaining) (drop (cursor f) (content f)) \<and>
   f' = f\<lparr>cursor := cursor f + length (concat cs)\<rparr>"
proof (induction chunk_size f remaining arbitrary: cs r f' rule: generate_loop.induct)
  case (1 chunk_size f remaining)
  show ?case
  proof (cases "remaining = 0")
    case True
    then show ?thesis using "1.prems"(4) by (simp add: generate_loop_stop)
  next
    case False
    define n where "n = min chunk_size remaining"
    define xs where "xs = drop (cursor f) (content f)"
    define data where "data = take (nat n) xs"
    define g where "g = f\<lparr>cursor := cursor f + length data\<rparr>"
    have n: "1 \<le> n" "n \<le> remaining" using "1.prems" False by (auto simp: n_def)
    have rd: "read f (min chunk_size remaining) = Inr (data, g)"
      unfolding data_def g_def xs_def n_def[symmetric]
      using "1.prems"(1) n by (simp add: read_open)
    show ?thesis
    proof (cases "data = []")
      case True
      have "0 < nat n" using n by simp
      then have "xs = []" using True unfolding data_def by (rule take_eq_Nil_pos)
      moreover have "generate_loop chunk_size f remaining = ([], None, g)"
        using generate_loop_eof[OF False] rd True by simp
      ultimately show ?thesis using "1.prems"(4) True by (simp add: g_def xs_def)
    next
      case nonempty: False
      define rem' where "rem' = remaining - int (length data)"
      have "length data \<le> nat n" by (simp add: data_def)
      then have r0: "0 \<le> rem'" using n by (simp add: rem'_def)
      obtain cs' r' f'' where rec: "generate_loop chunk_size g rem' = (cs', r', f'')"
        by (cases "generate_loop chunk_size g rem'") auto
      have ng: "\<not> closed g" using "1.prems"(1) by (simp add: g_def)
      have IH: "r' = None \<and> concat cs' = take (nat rem') (drop (cursor g) (content g)) \<and>
                f'' = g\<lparr>cursor := cursor g + length (concat cs')\<rparr>"
        using "1.IH"[OF False rd refl nonempty ng "1.prems"(2) _ rec[unfolded rem'_def]] r0
        by (simp add: rem'_def)
      have unf: "generate_loop chunk_size f remaining = (data # cs', r', f'')"
        using generate_loop_yield[OF False rd nonempty] rec
        by (simp add: rem'_def chunks_def raised_def handle_def)
      have mn: "nat n \<le> nat remaining" using n by simp
      have nr: "nat rem' = nat remaining - length data" using r0 by (simp add: rem'_def)
      have dg: "drop (cursor g) (content g) = drop (length data) xs"
        by (simp add: g_def xs_def add.commute)
      have cat: "data @ take (nat rem') (drop (length data) xs) = take (nat remaining) xs"
        unfolding nr data_def by (rule take_take_rest[OF mn])
      have eqs: "cs = data # cs'" "r = r'" "f' = f''" using unf "1.prems"(4) by simp_all
      have c1: "concat cs = take (nat remaining) xs"
        using IH cat dg eqs(1) by simp
      have c2: "f' = f\<lparr>cursor := cursor f + length (concat cs)\<rparr>"
        using IH eqs by (simp add: g_def add.assoc)
      show ?thesis using IH eqs(2) c1 c2 unfolding xs_def by blast
    qed
  qed
qed

lemma seek_open: "\<not> closed f \<Longrightarrow> 0 \<le> start \<Longrightarrow> seek f start = Inr (f\<lparr>cursor := nat start\<rparr>)"
  by (simp add: seek_def)

lemma str_int_examples:
  "str_int 0 = ''0''" "str_int 1 = ''1''" "str_int 3 = ''3''" "str_int 5 = ''5''"
  "str_int 49 = ''49''" "str_int 50 = ''50''" "str_int 100 = ''100''"
  "str_int MAX_CACHE_AGE = ''86400''"
  by (simp_all add: str_int_def str_nat.simps digit_char_def MAX_CACHE_AGE_def)

lemma read_result:
  "read f n = Inr (data, f') \<Longrightarrow>
   f' = f\<lparr>cursor := cursor f + length data\<rparr> \<and> \<not> closed f \<and>
   length data \<le> length (content f) - cursor f"
  by (auto simp: read_def Let_def split: if_splits)

lemma generate_loop_frame:
  "content (handle (generate_loop chunk_size f remaining)) = content f \<and>
   closed (handle (generate_loop chunk_size f remaining)) = closed f \<and>
   length (chunks (generate_loop chunk_size f remaining)) \<le> length (content f) - cursor f"
proof (induction chunk_size f remaining rule: generate_loop.induct)
  case (1 chunk_size f remaining)
  show ?case
  proof (cases "remaining = 0")
    case True
    then show ?thesis by (simp add: generate_loop_stop handle_def chunks_def)
  next
    case False
    show ?thesis
    proof (cases "read f (min chunk_size remaining)")
      case (Inl e)
      then show ?thesis
        using generate_loop_raise[OF False Inl] by (simp add: handle_def chunks_def)
    next
      case (Inr p)
      obtain data g where p: "p = (data, g)" by (cases p) auto
      have rd: "read f (min chunk_size remaining) = Inr (data, g)" using Inr p by simp
      note rr = read_result[OF rd]
      show ?thesis
      proof (cases "data = []")
        case True
        then show ?thesis
          using generate_loop_eof[OF False] rd rr by (simp add: handle_def chunks_def)
      next
        case nonempty: False
        have g: "content g = content f" "closed g = closed f" "cursor g = cursor f + length data"
          using rr by simp_all
        have pos: "0 < length data" using nonempty by simp
        have le: "length data \<le> length (content f) - cursor f" using rr by simp
        note IH = "1.IH"[OF False rd refl nonempty]
        have "length (chunks (generate_loop chunk_size g (remaining - int (length data))))
              \<le> length (content f) - (cursor f + length data)"
          using IH g by simp
        then have cnt: "Suc (length (chunks (generate_loop chunk_size g (remaining - int (length data)))))
              \<le> length (content f) - cursor f"
          using pos le by linarith
        show ?thesis
          using IH g cnt
          by (simp add: generate_loop_yield[OF False rd nonempty] handle_def chunks_def)
      qed
    qed
  qed
qed


lemma generate_upto_prefix:
  "chunks (generate_upto k chunk_size f remaining) =
   take k (chunks (generate_loop chunk_size f remaining))"
proof (induction k arbitrary: f remaining)
  case 0
  show ?case by (simp add: chunks_def)
next
  case (Suc k)
  show ?case
  proof (cases "remaining = 0")
    case True
    then show ?thesis by (simp add: generate_loop_stop chunks_def)
  next
    case False
    show ?thesis
    proof (cases "read f (min chunk_size remaining)")
      case (Inl e)
      then show ?thesis using generate_loop_raise[OF False Inl] False by (simp add: chunks_def)
    next
      case (Inr p)
      obtain data g where p: "p = (data, g)" by (cases p) auto
      have rd: "read f (min chunk_size remaining) = Inr (data, g)" using Inr p by simp
      show ?thesis
      proof (cases "data = []")
        case True
        then show ?thesis using generate_loop_eof[OF False] rd False by (simp add: chunks_def)
      next
        case nonempty: False
        show ?thesis
          using Suc.IH[of g "remaining - int (length data)"] rd False nonempty
          by (auto simp: generate_loop_yield[OF False rd nonempty] chunks_def split: prod.splits)
      qed
    qed
  qed
qed


lemma generate_loop_chunk_sizes:
  "\<not> closed f \<Longrightarrow> 1 \<le> chunk_size \<Longrightarrow> 0 \<le> remaining \<Longrightarrow>
   c \<in> set (chunks (generate_loop chunk_size f remaining)) \<Longrightarrow>
   c \<noteq> [] \<and> int (length c) \<le> chunk_size"
proof (induction chunk_size f remaining rule: generate_loop.induct)
  case (1 chunk_size f remaining)
  show ?case
  proof (cases "remaining = 0")
    case True
    then show ?thesis using "1.prems"(4) by (simp add: generate_loop_stop chunks_def)
  next
    case False
    define n where "n = min chunk_size remaining"
    define data where "data = take (nat n) (drop (cursor f) (content f))"
    define g where "g = f\<lparr>cursor := cursor f + length data\<rparr>"
    have n: "1 \<le> n" "n \<le> remaining" "n \<le> chunk_size"
      using "1.prems" False by (auto simp: n_def)
    have rd: "read f (min chunk_size remaining) = Inr (data, g)"
      unfolding data_def g_def n_def[symmetric]
      using "1.prems"(1) n by (simp add: read_open)
    show ?thesis
    proof (cases "data = []")
      case True
      then show ?thesis
        using generate_loop_eof[OF False] rd "1.prems"(4) by (simp add: chunks_def)
    next
      case nonempty: False
      have "length data \<le> nat n" by (simp add: data_def)
      then have len: "int (length data) \<le> n" using n by linarith
      have r0: "0 \<le> remaining - int (length data)" using len n by linarith
      have ng: "\<not> closed g" using "1.prems"(1) by (simp add: g_def)
      have mem: "c = data \<or> c \<in> set (chunks (generate_loop chunk_size g (remaining - int (length data))))"
        using "1.prems"(4) by (simp add: generate_loop_yield[OF False rd nonempty] chunks_def)
      then show ?thesis
      proof
        assume "c = data"
        then show ?thesis using nonempty len n by simp
      next
        assume "c \<in> set (chunks (generate_loop chunk_size g (remaining - int (length data))))"
        then show ?thesis
          using "1.IH"[OF False rd refl nonempty ng "1.prems"(2) r0] by simp
      qed
    qed
  qed
qed

lemma length_le_concat:
  "(\<And>c. c \<in> set cs \<Longrightarrow> c \<noteq> []) \<Longrightarrow> length cs \<le> length (concat cs)"
proof (induction cs)
  case Nil
  show ?case by simp
next
  case (Cons c cs)
  have "c \<noteq> []" using Cons.prems[of c] by simp
  then have "Suc 0 \<le> length c" by (cases c) simp_all
  moreover have "length cs \<le> length (concat cs)" using Cons by simp
  ultimately have "Suc (length cs) \<le> length c + length (concat cs)" by linarith
  then show ?case by simp
qed

lemma generate_loop_open:
  assumes "\<not> closed f" "1 \<le> chunk_size" "0 \<le> remaining"
  shows "raised (generate_loop chunk_size f remaining) = None"
    and "concat (chunks (generate_loop chunk_size f remaining)) =
           take (nat remaining) (drop (cursor f) (content f))"
    and "cursor (handle (generate_loop chunk_size f remaining)) =
           cursor f + length (take (nat remaining) (drop (cursor f) (content f)))"
proof -
  obtain cs r f' where p: "generate_loop chunk_size f remaining = (cs, r, f')"
    by (cases "generate_loop chunk_size f remaining") auto
  note spec = generate_loop_spec[OF assms p]
  show "raised (generate_loop chunk_size f remaining) = None"
    using spec by (simp add: p raised_def)
  show cat: "concat (chunks (generate_loop chunk_size f remaining)) =
           take (nat remaining) (drop (cursor f) (content f))"
    using spec by (simp add: p chunks_def)
  show "cursor (handle (generate_loop chunk_size f remaining)) =
           cursor f + length (take (nat remaining) (drop (cursor f) (content f)))"
    using spec by (simp add: p handle_def)
qed

lemma generate_upto_enough:
  "length (content f) - cursor f < k \<Longrightarrow>
   generate_upto k chunk_size f remaining = generate_loop chunk_size f remaining"
proof (induction k arbitrary: f remaining)
  case 0
  then show ?case by simp
next
  case (Suc k)
  show ?case
  proof (cases "remaining = 0")
    case True
    then show ?thesis by (simp add: generate_loop_stop)
  next
    case False
    show ?thesis
    proof (cases "read f (min chunk_size remaining)")
      case (Inl e)
      then show ?thesis using generate_loop_raise[OF False Inl] False by simp
    next
      case (Inr p)
      obtain data g where p: "p = (data, g)" by (cases p) auto
      have rd: "read f (min chunk_size remaining) = Inr (data, g)" using Inr p by simp
      note rr = read_result[OF rd]
      show ?thesis
      proof (cases "data = []")
        case True
        then show ?thesis using generate_loop_eof[OF False] rd False by simp
      next
        case nonempty: False
        have "0 < length data" using nonempty by simp
        moreover have "length data \<le> length (content f) - cursor f" using rr by simp
        ultimately have "length (content f) - (cursor f + length data) < k"
          using Suc.prems by linarith
        then have "length (content g) - cursor g < k"
          using rr by simp
        then have "generate_upto k chunk_size g (remaining - int (length data)) =
                   generate_loop chunk_size g (remaining - int (length data))"
          by (rule Suc.IH)
        then show ?thesis
          using rd False nonempty
          by (simp add: generate_loop.simps[of chunk_size f remaining])
      qed
    qed
  qed
qed

section \<open>Properties of parsing, of the builders and of the generators\<close>

lemma body_partial_response:
  "body (partial_response f start stop total' chunk_size mime_type) =
   Partial_generate f start stop chunk_size"
  by (simp add: partial_response_def)

lemma range_bounds_examples:
  "range_bounds ''bytes=100-200'' 50 = Inr (100, 49)"
  "range_bounds ''bytes=1-3'' 5 = Inr (1, 3)"
  "range_bounds ''bytes=3-1'' 5 = Inr (3, 1)"
  "range_bounds ''bytes=0-5,10-15'' 50 = Inl ValueError"
  "range_bounds ''items=0-5'' 50 = Inl ValueError"
  "range_bounds ''bytes=abc-5'' 50 = Inl ValueError"
  by code_simp+

lemma example_files: "files (example_server bytes) ''a.mp4'' = Some bytes"
  by (simp add: example_server_def)

lemma example_header: "Range_header (example_request h) = h"
  by (simp add: example_request_def)

lemma unsigned_value_error: "unsigned_value u = Inl e \<Longrightarrow> e = ValueError"
  by (auto simp: unsigned_value_def split: list.splits if_splits option.splits)

lemma py_int_error: "py_int s = Inl e \<Longrightarrow> e = ValueError"
proof -
  assume a: "py_int s = Inl e"
  show ?thesis
  proof (cases "strip s")
    case Nil
    then show ?thesis using a by (simp add: py_int_def)
  next
    case (Cons c r)
    then have "unsigned_value r = Inl e \<or> unsigned_value (c # r) = Inl e"
      using a by (cases "unsigned_value r") (auto simp: py_int_def split: if_splits)
    then show ?thesis using unsigned_value_error by blast
  qed
qed

lemma range_bounds_error: "range_bounds h t = Inl e \<Longrightarrow> e = ValueError"
  by (auto simp: range_bounds_def split: list.splits sum.splits if_splits dest: py_int_error)

lemma range_bounds_clamped: "range_bounds h t = Inr (a, b) \<Longrightarrow> b \<le> t - 1"
  by (auto simp: range_bounds_def split: list.splits sum.splits if_splits)


lemma chunks_at_eof:
  "length (content f) \<le> cursor f \<Longrightarrow> chunks (generate_loop chunk_size f remaining) = []"
proof -
  assume "length (content f) \<le> cursor f"
  moreover have "length (chunks (generate_loop chunk_size f remaining)) \<le> length (content f) - cursor f"
    using generate_loop_frame[of chunk_size f remaining] by blast
  ultimately show ?thesis by simp
qed

lemma header_partial_response:
  "header (partial_response f start stop total' chunk_size mime_type) ''Content-Range'' =
     Some (Str (''bytes '' @ str_int start @ ''-'' @ str_int stop @ ''/'' @ str_int total'))"
  "header (partial_response f start stop total' chunk_size mime_type) ''Content-Length'' =
     Some (Num (stop - start + 1))"
  "status (partial_response f start stop total' chunk_size mime_type) = 206"
  by (simp_all add: partial_response_def header_def)





section \<open>Unfolding the route handler\<close>

lemma CHUNK_SIZE_pos: "1 \<le> CHUNK_SIZE"
  by (simp add: CHUNK_SIZE_def)

lemma stream_video_missing:
  "files s filename = None \<Longrightarrow>
   stream_video s rq filename =
     \<lparr>state = s, reply = Json (Message ''Video not found'') 404, opened = None\<rparr>"
  by (simp add: stream_video_def)



lemma stream_video_reply:
  "files s filename = Some bytes \<Longrightarrow>
   reply (stream_video s rq filename) =
     (case Range_header rq of
        None \<Rightarrow> full_response (open_rb bytes) (int (length bytes)) CHUNK_SIZE (mime_type_of (guessed_type rq))
      | Some h \<Rightarrow>
          if h = []
          then full_response (open_rb bytes) (int (length bytes)) CHUNK_SIZE (mime_type_of (guessed_type rq))
          else (case range_bounds h (int (length bytes)) of
                  Inl e \<Rightarrow> Json (Exception e) 500
                | Inr (byte_start, byte_end) \<Rightarrow>
                    partial_response (open_rb bytes) byte_start byte_end (int (length bytes))
                      CHUNK_SIZE (mime_type_of (guessed_type rq))))"
  by (simp add: stream_video_def Let_def split: prod.splits option.splits sum.splits)

section \<open>Range parsing\<close>


section \<open>Partial responses\<close>

text \<open>
  Claim C2. For a resource of \<open>total'\<close> bytes with \<open>total' > 0\<close> and a range
  \<open>0 \<le> start \<le> stop \<le> total' - 1\<close>, the partial response has status 206, the header
  \<^verbatim>\<open>Content-Range: bytes start-stop/total\<close>, a \<^verbatim>\<open>Content-Length\<close> of
  \<open>stop - start + 1\<close>, and the chunks of its body, concatenated, are exactly the bytes
  from offset \<open>start\<close> to offset \<open>stop\<close> of the source; the generator ends without an
  exception. The chunk size is any positive number, as \<^verbatim>\<open>Config.CHUNK_SIZE\<close> is.
\<close>

theorem partial_response_serves_range:
  assumes "0 < total'" "0 \<le> start" "start \<le> stop" "stop \<le> total' - 1"
    and "int (length (content f)) = total'" "\<not> closed f" "1 \<le> chunk_size"
  shows "status (partial_response f start stop total' chunk_size mime_type) = 206 \<and>
    header (partial_response f start stop total' chunk_size mime_type) ''Content-Range'' =
      Some (Str (''bytes '' @ str_int start @ ''-'' @ str_int stop @ ''/'' @ str_int total')) \<and>
    header (partial_response f start stop total' chunk_size mime_type) ''Content-Length'' =
      Some (Num (stop - start + 1)) \<and>
    raised (exhaust (body (partial_response f start stop total' chunk_size mime_type))) = None \<and>
    concat (chunks (exhaust (body (partial_response f start stop total' chunk_size mime_type)))) =
      take (nat (stop - start + 1)) (drop (nat start) (content f)) \<and>
    int (length (concat (chunks (exhaust (body (partial_response f start stop total' chunk_size mime_type)))))) =
      stop - start + 1"
proof -
  let ?g = "f\<lparr>cursor := nat start\<rparr>"
  let ?p = "generate_loop chunk_size ?g (stop - start + 1)"
  have ex: "exhaust (body (partial_response f start stop total' chunk_size mime_type)) = ?p"
    using assms(2,6) by (simp add: partial_response_def seek_open)
  obtain cs r f' where p: "?p = (cs, r, f')" by (cases ?p) auto
  have spec: "r = None \<and> concat cs = take (nat (stop - start + 1)) (drop (cursor ?g) (content ?g))"
    using generate_loop_spec[OF _ assms(7) _ p] assms(3,6) by simp
  have cat: "concat cs = take (nat (stop - start + 1)) (drop (nat start) (content f))"
    using spec by simp
  have "nat (stop - start + 1) \<le> length (content f) - nat start"
    using assms(2,3,4,5) by linarith
  then have len: "int (length (concat cs)) = stop - start + 1"
    unfolding cat using assms(3) by simp
  show ?thesis
    using spec cat len
    by (simp add: ex p chunks_def raised_def) (simp add: partial_response_def header_def)
qed

text \<open>The range from 1 to 3 of a five-byte file, read in chunks of two bytes.\<close>

theorem partial_response_serves_range_witness:
  "status (partial_response (open_rb [10, 20, 30, 40, 50]) 1 3 5 2 ''video/mp4'') = 206 \<and>
   header (partial_response (open_rb [10, 20, 30, 40, 50]) 1 3 5 2 ''video/mp4'') ''Content-Range'' =
     Some (Str ''bytes 1-3/5'') \<and>
   header (partial_response (open_rb [10, 20, 30, 40, 50]) 1 3 5 2 ''video/mp4'') ''Content-Length'' =
     Some (Num 3) \<and>
   raised (exhaust (body (partial_response (open_rb [10, 20, 30, 40, 50]) 1 3 5 2 ''video/mp4''))) = None \<and>
   concat (chunks (exhaust (body (partial_response (open_rb [10, 20, 30, 40, 50]) 1 3 5 2 ''video/mp4'')))) =
     [20, 30, 40]"
  using partial_response_serves_range[of 5 1 3 "open_rb [10, 20, 30, 40, 50]" 2 "''video/mp4''"]
  by (simp add: open_rb_def str_int_examples)

section \<open>Full responses\<close>

text \<open>
  Claim C5. A request without a \<^verbatim>\<open>Range\<close> header for an existing file is answered
  with status 200 and the headers \<^verbatim>\<open>Content-Type\<close>, \<^verbatim>\<open>Accept-Ranges: bytes\<close>,
  \<^verbatim>\<open>Content-Length\<close> equal to the size of the file and
  \<^verbatim>\<open>Cache-Control: public, max-age=86400\<close>; the chunks of the body, concatenated, are
  the whole file, and the generator ends without an exception.
\<close>

theorem full_response_serves_resource:
  assumes "files s filename = Some bytes" "Range_header rq = None"
  shows "status (reply (stream_video s rq filename)) = 200 \<and>
    headers (reply (stream_video s rq filename)) =
      [(''Content-Type'', Str (mime_type_of (guessed_type rq))),
       (''Accept-Ranges'', Str ''bytes''),
       (''Content-Length'', Num (int (length bytes))),
       (''Cache-Control'', Str ''public, max-age=86400'')] \<and>
    raised (exhaust (body (reply (stream_video s rq filename)))) = None \<and>
    concat (chunks (exhaust (body (reply (stream_video s rq filename))))) = bytes"
proof -
  have r: "reply (stream_video s rq filename) =
      full_response (open_rb bytes) (int (length bytes)) CHUNK_SIZE (mime_type_of (guessed_type rq))"
    using assms by (simp add: stream_video_reply)
  have o: "\<not> closed (open_rb bytes)" by (simp add: open_rb_def)
  have z: "0 \<le> int (length bytes)" by simp
  note g = generate_loop_open[OF o CHUNK_SIZE_pos z]
  show ?thesis
    using g(1,2)
    by (simp add: r full_response_def str_int_examples) (simp add: open_rb_def)
qed

text \<open>A three-byte file requested without a range.\<close>

theorem full_response_serves_resource_witness:
  "status (reply (stream_video
      \<lparr>files = [''a.mp4'' \<mapsto> [1, 2, 3]], watch_history = Absent, comments = Absent,
       playlists = Absent, duration_cache = Map.empty\<rparr>
      \<lparr>Range_header = None, now = ''2024-05-01T10:00:00'', history_write = Written,
       probed_duration = None, guessed_type = Some ''video/mp4''\<rparr>
      ''a.mp4'')) = 200 \<and>
   concat (chunks (exhaust (body (reply (stream_video
      \<lparr>files = [''a.mp4'' \<mapsto> [1, 2, 3]], watch_history = Absent, comments = Absent,
       playlists = Absent, duration_cache = Map.empty\<rparr>
      \<lparr>Range_header = None, now = ''2024-05-01T10:00:00'', history_write = Written,
       probed_duration = None, guessed_type = Some ''video/mp4''\<rparr>
      ''a.mp4''))))) = [1, 2, 3]"
  using full_response_serves_resource[of
      "\<lparr>files = [''a.mp4'' \<mapsto> [1, 2, 3]], watch_history = Absent, comments = Absent,
       playlists = Absent, duration_cache = Map.empty\<rparr>" "''a.mp4''" "[1, 2, 3]"
      "\<lparr>Range_header = None, now = ''2024-05-01T10:00:00'', history_write = Written,
       probed_duration = None, guessed_type = Some ''video/mp4''\<rparr>"]
  by simp

section \<open>The remaining-byte counter bounds the body\<close>

text \<open>
  Claim C6. For a range \<open>0 \<le> start \<le> stop\<close> the body yields at most
  \<open>stop - start + 1\<close> bytes and the cursor never passes offset \<open>stop + 1\<close>, so no byte
  after \<open>stop\<close> is read; the full body yields at most \<open>total'\<close> bytes and reads at most
  \<open>total'\<close> bytes from where the handle stands. Nothing is assumed about the length of
  the source: it may hold more data than the declared range. The chunk size is any
  positive number.
\<close>

theorem body_never_exceeds_declared_length:
  assumes "0 \<le> start" "start \<le> stop" "0 \<le> total'" "\<not> closed f" "1 \<le> chunk_size"
  shows "int (length (concat (chunks (exhaust (Partial_generate f start stop chunk_size)))))
           \<le> stop - start + 1 \<and>
         int (cursor (handle (exhaust (Partial_generate f start stop chunk_size)))) \<le> stop + 1 \<and>
         int (length (concat (chunks (exhaust (Full_generate f total' chunk_size))))) \<le> total' \<and>
         int (cursor (handle (exhaust (Full_generate f total' chunk_size)))) \<le> int (cursor f) + total'"
proof -
  let ?g = "f\<lparr>cursor := nat start\<rparr>"
  have og: "\<not> closed ?g" using assms(4) by simp
  have r: "0 \<le> stop - start + 1" using assms(2) by simp
  note p = generate_loop_open[OF og assms(5) r]
  note q = generate_loop_open[OF assms(4,5,3)]
  have ex: "exhaust (Partial_generate f start stop chunk_size) =
            generate_loop chunk_size ?g (stop - start + 1)"
    using assms(1,4) by (simp add: seek_open)
  have a: "int (length (concat (chunks (exhaust (Partial_generate f start stop chunk_size)))))
           \<le> stop - start + 1"
    unfolding ex p(2) using r by simp
  have b: "int (cursor (handle (exhaust (Partial_generate f start stop chunk_size)))) \<le> stop + 1"
    unfolding ex p(3) using assms(1,2) by simp
  have c: "int (length (concat (chunks (exhaust (Full_generate f total' chunk_size))))) \<le> total'"
    using assms(3) by (simp add: q(2))
  have d: "int (cursor (handle (exhaust (Full_generate f total' chunk_size)))) \<le> int (cursor f) + total'"
    using assms(3) by (simp add: q(3))
  show ?thesis using a b c d by blast
qed

text \<open>A six-byte source, a declared range of two bytes and a declared total of four.\<close>

theorem body_never_exceeds_declared_length_witness:
  "int (length (concat (chunks (exhaust (Partial_generate (open_rb [1, 2, 3, 4, 5, 6]) 1 2 5))))) \<le> 2 \<and>
   int (cursor (handle (exhaust (Partial_generate (open_rb [1, 2, 3, 4, 5, 6]) 1 2 5)))) \<le> 3 \<and>
   int (length (concat (chunks (exhaust (Full_generate (open_rb [1, 2, 3, 4, 5, 6]) 4 5))))) \<le> 4 \<and>
   int (cursor (handle (exhaust (Full_generate (open_rb [1, 2, 3, 4, 5, 6]) 4 5)))) \<le> 4"
  using body_never_exceeds_declared_length[of 1 2 4 "open_rb [1, 2, 3, 4, 5, 6]" 5]
  by (simp add: open_rb_def)

section \<open>Chunk size\<close>

text \<open>
  Claim C7. For a range \<open>0 \<le> start \<le> stop\<close> and any two chunk sizes \<open>C \<ge> 1\<close> and
  \<open>C' \<ge> 1\<close>, the chunks of the partial body concatenate to the same bytes and the
  generator ends the same way; the chunk size only bounds the length of each chunk, and
  no chunk is empty.
\<close>

theorem chunk_size_changes_only_granularity:
  assumes "0 \<le> start" "start \<le> stop" "\<not> closed f" "1 \<le> C" "1 \<le> C'"
  shows "concat (chunks (exhaust (body (partial_response f start stop total' C mime_type)))) =
         concat (chunks (exhaust (body (partial_response f start stop total' C' mime_type)))) \<and>
         raised (exhaust (body (partial_response f start stop total' C mime_type))) =
         raised (exhaust (body (partial_response f start stop total' C' mime_type))) \<and>
         (\<forall>c \<in> set (chunks (exhaust (body (partial_response f start stop total' C mime_type)))).
            c \<noteq> [] \<and> int (length c) \<le> C)"
proof -
  let ?g = "f\<lparr>cursor := nat start\<rparr>"
  have og: "\<not> closed ?g" using assms(3) by simp
  have r: "0 \<le> stop - start + 1" using assms(2) by simp
  have ex: "\<And>k. exhaust (body (partial_response f start stop total' k mime_type)) =
            generate_loop k ?g (stop - start + 1)"
    using assms(1,3) by (simp add: body_partial_response seek_open)
  note p = generate_loop_open[OF og assms(4) r]
  note q = generate_loop_open[OF og assms(5) r]
  have a: "concat (chunks (exhaust (body (partial_response f start stop total' C mime_type)))) =
         concat (chunks (exhaust (body (partial_response f start stop total' C' mime_type))))"
    unfolding ex p(2) q(2) by (rule refl)
  have b: "raised (exhaust (body (partial_response f start stop total' C mime_type))) =
         raised (exhaust (body (partial_response f start stop total' C' mime_type)))"
    unfolding ex p(1) q(1) by (rule refl)
  have c: "\<forall>c \<in> set (chunks (exhaust (body (partial_response f start stop total' C mime_type)))).
            c \<noteq> [] \<and> int (length c) \<le> C"
    unfolding ex using generate_loop_chunk_sizes[OF og assms(4) r] by blast
  show ?thesis using a b c by blast
qed

text \<open>
  Chunks of one byte against one chunk larger than the range: three chunks and one chunk,
  the same three bytes.
\<close>

theorem chunk_size_changes_only_granularity_witness:
  "chunks (exhaust (body (partial_response (open_rb [10, 20, 30, 40, 50]) 1 3 5 1 ''video/mp4''))) =
     [[20], [30], [40]] \<and>
   chunks (exhaust (body (partial_response (open_rb [10, 20, 30, 40, 50]) 1 3 5 100 ''video/mp4''))) =
     [[20, 30, 40]] \<and>
   concat (chunks (exhaust (body (partial_response (open_rb [10, 20, 30, 40, 50]) 1 3 5 1 ''video/mp4'')))) =
   concat (chunks (exhaust (body (partial_response (open_rb [10, 20, 30, 40, 50]) 1 3 5 100 ''video/mp4'')))) \<and>
   [20] \<in> set (chunks (exhaust (body (partial_response (open_rb [10, 20, 30, 40, 50]) 1 3 5 1 ''video/mp4'')))) \<and>
   int (length [20 :: byte]) \<le> 1"
proof -
  have c1: "chunks (exhaust (body (partial_response (open_rb [10, 20, 30, 40, 50]) 1 3 5 1 ''video/mp4''))) =
     [[20], [30], [40]]"
    by (simp add: partial_response_def open_rb_def seek_def generate_loop.simps read_def chunks_def)
  have c2: "chunks (exhaust (body (partial_response (open_rb [10, 20, 30, 40, 50]) 1 3 5 100 ''video/mp4''))) =
     [[20, 30, 40]]"
    by (simp add: partial_response_def open_rb_def seek_def generate_loop.simps read_def chunks_def)
  have m: "[20] \<in> set (chunks (exhaust (body (partial_response (open_rb [10, 20, 30, 40, 50]) 1 3 5 1 ''video/mp4''))))"
    unfolding c1 by simp
  note t = chunk_size_changes_only_granularity[of 1 3 "open_rb [10, 20, 30, 40, 50]" 1 100 5 "''video/mp4''"]
  have h: "(0::int) \<le> 1" "(1::int) \<le> 3" "\<not> closed (open_rb [10, 20, 30, 40, 50])" "(1::int) \<le> 1" "(1::int) \<le> 100"
    by (simp_all add: open_rb_def)
  from t[OF h] m c1 c2 show ?thesis by blast
qed

section \<open>Termination of body production\<close>

text \<open>
  Claim C9. Body production terminates for every range, chunk size and source.
  \<open>generate_loop\<close> is a total function: each pass that yields moves the cursor forward,
  so both generators yield at most as many chunks as the source has bytes, and a
  consumer that allows more passes than bytes are left sees the generator end by itself.
  For an open handle, a positive chunk size and a counter \<open>remaining \<ge> 0\<close> the loop
  yields at most \<open>remaining\<close> chunks and ends without an exception; when the source is
  shorter than the counter, the body is the bytes that are there (the read that returns
  no data ends the stream).
\<close>

theorem body_production_terminates:
  "length (chunks (exhaust (Partial_generate f start stop chunk_size))) \<le> length (content f) \<and>
   length (chunks (exhaust (Full_generate f total' chunk_size))) \<le> length (content f) \<and>
   (length (content f) - cursor f < k \<longrightarrow>
      generate_upto k chunk_size f remaining = generate_loop chunk_size f remaining) \<and>
   (\<not> closed f \<and> 1 \<le> chunk_size \<and> 0 \<le> remaining \<longrightarrow>
      raised (generate_loop chunk_size f remaining) = None \<and>
      int (length (chunks (generate_loop chunk_size f remaining))) \<le> remaining \<and>
      concat (chunks (generate_loop chunk_size f remaining)) =
        take (nat remaining) (drop (cursor f) (content f)))"
proof -
  have a: "length (chunks (exhaust (Partial_generate f start stop chunk_size))) \<le> length (content f)"
  proof (cases "seek f start")
    case (Inl e)
    then show ?thesis by (simp add: chunks_def)
  next
    case (Inr g)
    then have g: "content g = content f" by (auto simp: seek_def split: if_splits)
    have "length (chunks (generate_loop chunk_size g (stop - start + 1))) \<le> length (content g) - cursor g"
      using generate_loop_frame[of chunk_size g "stop - start + 1"] by blast
    then show ?thesis using Inr g by simp
  qed
  have b: "length (chunks (exhaust (Full_generate f total' chunk_size))) \<le> length (content f)"
  proof -
    have "length (chunks (generate_loop chunk_size f total')) \<le> length (content f) - cursor f"
      using generate_loop_frame[of chunk_size f total'] by blast
    then show ?thesis by simp
  qed
  have c: "length (content f) - cursor f < k \<longrightarrow>
      generate_upto k chunk_size f remaining = generate_loop chunk_size f remaining"
    by (simp add: generate_upto_enough)
  have d: "raised (generate_loop chunk_size f remaining) = None \<and>
      int (length (chunks (generate_loop chunk_size f remaining))) \<le> remaining \<and>
      concat (chunks (generate_loop chunk_size f remaining)) =
        take (nat remaining) (drop (cursor f) (content f))"
    if h: "\<not> closed f" "1 \<le> chunk_size" "0 \<le> remaining"
  proof -
    note p = generate_loop_open[OF h]
    have ne: "\<And>c. c \<in> set (chunks (generate_loop chunk_size f remaining)) \<Longrightarrow> c \<noteq> []"
      using generate_loop_chunk_sizes[OF h] by blast
    have "length (chunks (generate_loop chunk_size f remaining))
          \<le> length (concat (chunks (generate_loop chunk_size f remaining)))"
      using ne by (rule length_le_concat)
    also have "\<dots> \<le> nat remaining" unfolding p(2) by simp
    finally have "int (length (chunks (generate_loop chunk_size f remaining))) \<le> remaining"
      using h(3) by linarith
    then show ?thesis using p(1,2) by blast
  qed
  show ?thesis using a b c d by blast
qed

text \<open>A three-byte source against a counter of ten, read in chunks of two.\<close>

theorem body_production_terminates_witness:
  "length (content (open_rb [1, 2, 3])) - cursor (open_rb [1, 2, 3]) < 4 \<and>
   generate_upto 4 2 (open_rb [1, 2, 3]) 10 = generate_loop 2 (open_rb [1, 2, 3]) 10 \<and>
   \<not> closed (open_rb [1, 2, 3]) \<and> (1::int) \<le> 2 \<and> (0::int) \<le> 10 \<and>
   raised (generate_loop 2 (open_rb [1, 2, 3]) 10) = None \<and>
   int (length (chunks (generate_loop 2 (open_rb [1, 2, 3]) 10))) \<le> 10 \<and>
   concat (chunks (generate_loop 2 (open_rb [1, 2, 3]) 10)) = [1, 2, 3]"
  using body_production_terminates[of "open_rb [1, 2, 3]" 0 9 2 10 4 10]
  by (simp add: open_rb_def)

section \<open>Unsatisfiable ranges\<close>

text \<open>
  Claim C1 says that a range with \<open>start \<ge> byte_size\<close>, or with \<open>end < start\<close> after
  clamping, is answered with status 416, \<^verbatim>\<open>Content-Range: bytes */byte_size\<close> and an
  empty body. The handler has no such branch: \<^verbatim>\<open>bytes=100-200\<close> against a file of 50
  bytes is answered with status 206 and \<^verbatim>\<open>Content-Range: bytes 100-49/50\<close>.
\<close>

theorem unsatisfiable_range_counterexample:
  "status (reply (stream_video (example_server (replicate 50 0))
      (example_request (Some ''bytes=100-200'')) ''a.mp4'')) = 206 \<and>
   header (reply (stream_video (example_server (replicate 50 0))
      (example_request (Some ''bytes=100-200'')) ''a.mp4'')) ''Content-Range'' =
     Some (Str ''bytes 100-49/50'')"
  by (simp add: stream_video_reply[OF example_files] example_header range_bounds_examples
        header_partial_response str_int_examples)

text \<open>
  Claim C1, as the handler behaves. When the header parses to \<open>(start, stop)\<close> with
  \<open>start \<ge> byte_size\<close> or \<open>stop < start\<close> after clamping, the reply is the partial
  response: status 206, \<^verbatim>\<open>Content-Range: bytes start-stop/byte_size\<close> and a
  \<^verbatim>\<open>Content-Length\<close> of \<open>stop - start + 1\<close>, which is not positive; when
  \<open>start \<ge> byte_size\<close> the body yields no chunk.
\<close>

theorem unsatisfiable_range_gets_partial_response:
  assumes "files s filename = Some bytes" "Range_header rq = Some h" "h \<noteq> []"
    and "range_bounds h (int (length bytes)) = Inr (start, stop)"
    and "int (length bytes) \<le> start \<or> stop < start"
  shows "status (reply (stream_video s rq filename)) = 206 \<and>
    header (reply (stream_video s rq filename)) ''Content-Range'' =
      Some (Str (''bytes '' @ str_int start @ ''-'' @ str_int stop @ ''/'' @
                 str_int (int (length bytes)))) \<and>
    header (reply (stream_video s rq filename)) ''Content-Length'' =
      Some (Num (stop - start + 1)) \<and>
    stop - start + 1 \<le> 0 \<and>
    (int (length bytes) \<le> start \<longrightarrow>
       chunks (exhaust (body (reply (stream_video s rq filename)))) = [])"
proof -
  have r: "reply (stream_video s rq filename) =
      partial_response (open_rb bytes) start stop (int (length bytes)) CHUNK_SIZE
        (mime_type_of (guessed_type rq))"
    using assms(1-4) by (simp add: stream_video_reply)
  have cl: "stop \<le> int (length bytes) - 1" using range_bounds_clamped[OF assms(4)] .
  have neg: "stop - start + 1 \<le> 0" using cl assms(5) by linarith
  have empty: "chunks (exhaust (body (reply (stream_video s rq filename)))) = []"
    if big: "int (length bytes) \<le> start"
  proof -
    have s0: "0 \<le> start" using big by linarith
    have "length (content ((open_rb bytes)\<lparr>cursor := nat start\<rparr>))
          \<le> cursor ((open_rb bytes)\<lparr>cursor := nat start\<rparr>)"
      using big by (simp add: open_rb_def)
    then have "chunks (generate_loop CHUNK_SIZE ((open_rb bytes)\<lparr>cursor := nat start\<rparr>)
                 (stop - start + 1)) = []"
      by (rule chunks_at_eof)
    then show ?thesis
      using s0 by (simp add: r body_partial_response seek_open open_rb_def)
  qed
  show ?thesis using neg empty by (simp add: r header_partial_response)
qed

text \<open>
  The request \<^verbatim>\<open>bytes=100-200\<close> against 50 bytes, and \<^verbatim>\<open>bytes=3-1\<close> against five.
\<close>

theorem unsatisfiable_range_gets_partial_response_witness:
  "range_bounds ''bytes=100-200'' (int (length (replicate 50 (0::byte)))) = Inr (100, 49) \<and>
   status (reply (stream_video (example_server (replicate 50 0))
      (example_request (Some ''bytes=100-200'')) ''a.mp4'')) = 206 \<and>
   header (reply (stream_video (example_server (replicate 50 0))
      (example_request (Some ''bytes=100-200'')) ''a.mp4'')) ''Content-Length'' = Some (Num (- 50)) \<and>
   chunks (exhaust (body (reply (stream_video (example_server (replicate 50 0))
      (example_request (Some ''bytes=100-200'')) ''a.mp4'')))) = [] \<and>
   range_bounds ''bytes=3-1'' (int (length [10, 20, 30, 40, 50 :: byte])) = Inr (3, 1) \<and>
   status (reply (stream_video (example_server [10, 20, 30, 40, 50])
      (example_request (Some ''bytes=3-1'')) ''a.mp4'')) = 206 \<and>
   header (reply (stream_video (example_server [10, 20, 30, 40, 50])
      (example_request (Some ''bytes=3-1'')) ''a.mp4'')) ''Content-Length'' = Some (Num (- 1))"
  using unsatisfiable_range_gets_partial_response[of "example_server (replicate 50 0)" "''a.mp4''"
      "replicate 50 0" "example_request (Some ''bytes=100-200'')" "''bytes=100-200''" 100 49]
    unsatisfiable_range_gets_partial_response[of "example_server [10, 20, 30, 40, 50]" "''a.mp4''"
      "[10, 20, 30, 40, 50]" "example_request (Some ''bytes=3-1'')" "''bytes=3-1''" 3 1]
  by (simp add: example_files example_header range_bounds_examples)

section \<open>Malformed range headers\<close>

text \<open>
  Claim C3 says that a malformed \<^verbatim>\<open>Range\<close> header is treated as absent and the full
  body is served with status 200. The handler unpacks and converts the header inside its
  \<^verbatim>\<open>try\<close> block, so the header \<^verbatim>\<open>bytes=0-5,10-15\<close> (two ranges) ends in the
  \<^verbatim>\<open>except\<close> branch: a JSON error with status 500.
\<close>

theorem malformed_range_counterexample:
  "reply (stream_video (example_server [1, 2, 3])
      (example_request (Some ''bytes=0-5,10-15'')) ''a.mp4'') = Json (Exception ValueError) 500"
proof -
  have "range_bounds ''bytes=0-5,10-15'' 3 = Inl ValueError" by code_simp
  then show ?thesis
    by (simp add: stream_video_reply[OF example_files] example_header)
qed

text \<open>
  Claim C3, as the handler behaves. When a \<^verbatim>\<open>Range\<close> header is present, not empty,
  and its parsing raises (it does not split into exactly two parts at \<^verbatim>\<open>-\<close>, or the
  start or a non-empty end is not accepted by \<^verbatim>\<open>int\<close>), the exception is a
  \<^verbatim>\<open>ValueError\<close> and the reply is the JSON error with status 500.
\<close>

theorem malformed_range_fails_request:
  assumes "files s filename = Some bytes" "Range_header rq = Some h" "h \<noteq> []"
    and "range_bounds h (int (length bytes)) = Inl e"
  shows "reply (stream_video s rq filename) = Json (Exception ValueError) 500 \<and>
         status (reply (stream_video s rq filename)) = 500"
proof -
  have "e = ValueError" using range_bounds_error[OF assms(4)] .
  then show ?thesis using assms by (simp add: stream_video_reply)
qed

text \<open>A wrong unit and a start that is not a number.\<close>

theorem malformed_range_fails_request_witness:
  "range_bounds ''items=0-5'' (int (length (replicate 50 (0::byte)))) = Inl ValueError \<and>
   reply (stream_video (example_server (replicate 50 0))
      (example_request (Some ''items=0-5'')) ''a.mp4'') = Json (Exception ValueError) 500 \<and>
   range_bounds ''bytes=abc-5'' (int (length (replicate 50 (0::byte)))) = Inl ValueError \<and>
   reply (stream_video (example_server (replicate 50 0))
      (example_request (Some ''bytes=abc-5'')) ''a.mp4'') = Json (Exception ValueError) 500"
  using malformed_range_fails_request[of "example_server (replicate 50 0)" "''a.mp4''"
      "replicate 50 0" "example_request (Some ''items=0-5'')" "''items=0-5''" ValueError]
    malformed_range_fails_request[of "example_server (replicate 50 0)" "''a.mp4''"
      "replicate 50 0" "example_request (Some ''bytes=abc-5'')" "''bytes=abc-5''" ValueError]
  by (simp add: example_files example_header range_bounds_examples)

section \<open>The handle opened for a response\<close>




section \<open>Watch history\<close>



end
